theory Spec2Isabelle
  imports Complex_Main
begin

section \<open>JavaScript values\<close>

text \<open>
  The function under study, \<^verbatim>\<open>computeActiveFromEntries(entries, prevId)\<close>, is
  untyped JavaScript: both arguments may be any value. Values are modelled as finite
  trees of plain data. An object is the list of its own data properties (the first
  binding of a name is the one that is read); an array is the list of its elements, a
  hole of a sparse array being \<open>JUndefined\<close>. Accessor properties and proxies, whose
  reads run foreign code, are outside the model.

  A number is a double: not-a-number, an infinity, or a finite value, kept as the
  rational it denotes (both zeros are \<open>Finite 0\<close>). A string is the list of its
  characters, one for each code unit that JavaScript counts in \<^verbatim>\<open>length\<close>; section
  identifiers are ASCII.
\<close>

datatype jsnum = NaN | PosInfinity | NegInfinity | Finite rat

datatype jsval =
    JUndefined
  | JNull
  | JBool bool
  | JNum jsnum
  | JBigInt int
  | JStr string
  | JSymbol string
  | JObj "(string \<times> jsval) list"
  | JArr "jsval list"

text \<open>
  What a JavaScript evaluation can do besides returning a value. \<open>TypeError\<close> is the
  exception thrown by a property read on \<^verbatim>\<open>undefined\<close> or \<^verbatim>\<open>null\<close>. \<open>Unsupported\<close>
  marks an operation whose JavaScript meaning is not modelled (a coercion, an indexed
  read through a property name): a run that reaches one is not accounted for.
\<close>

datatype error = TypeError | Unsupported

definition thenE :: "error + 'a \<Rightarrow> ('a \<Rightarrow> error + 'b) \<Rightarrow> error + 'b" where
  "thenE m f = (case m of Inl e \<Rightarrow> Inl e | Inr v \<Rightarrow> f v)"

text \<open>\<^verbatim>\<open>ToBoolean\<close>: the test made by \<^verbatim>\<open>!x\<close>, \<^verbatim>\<open>x && y\<close> and \<^verbatim>\<open>x || y\<close>.\<close>

fun truthy :: "jsval \<Rightarrow> bool" where
  "truthy JUndefined = False"
| "truthy JNull = False"
| "truthy (JBool b) = b"
| "truthy (JNum n) = (n \<noteq> NaN \<and> n \<noteq> Finite 0)"
| "truthy (JBigInt k) = (k \<noteq> 0)"
| "truthy (JStr s) = (s \<noteq> [])"
| "truthy (JSymbol d) = True"
| "truthy (JObj ps) = True"
| "truthy (JArr xs) = True"

text \<open>The \<^verbatim>\<open>typeof\<close> operator.\<close>

fun typeof :: "jsval \<Rightarrow> string" where
  "typeof JUndefined = ''undefined''"
| "typeof JNull = ''object''"
| "typeof (JBool b) = ''boolean''"
| "typeof (JNum n) = ''number''"
| "typeof (JBigInt k) = ''bigint''"
| "typeof (JStr s) = ''string''"
| "typeof (JSymbol d) = ''symbol''"
| "typeof (JObj ps) = ''object''"
| "typeof (JArr xs) = ''object''"

text \<open>\<^verbatim>\<open>Array.isArray\<close>.\<close>

fun isArray :: "jsval \<Rightarrow> bool" where
  "isArray (JArr xs) = True"
| "isArray v = False"

text \<open>
  A property name made of decimal digits may be an array index or a string index;
  reads through such names are not modelled.
\<close>

definition digits_only :: "string \<Rightarrow> bool" where
  "digits_only k = (k \<noteq> [] \<and> list_all (\<lambda>c. c \<in> set ''0123456789'') k)"

text \<open>
  The property read \<^verbatim>\<open>v.k\<close>. On \<^verbatim>\<open>undefined\<close> and \<^verbatim>\<open>null\<close> it throws. On an object
  it is the own property, or \<^verbatim>\<open>undefined\<close>: the names the program reads
  (\<^verbatim>\<open>isIntersecting\<close>, \<^verbatim>\<open>target\<close>, \<^verbatim>\<open>id\<close>, \<^verbatim>\<open>length\<close>) are not inherited from
  \<^verbatim>\<open>Object.prototype\<close>. An array and a string have \<^verbatim>\<open>length\<close>; the other
  primitives are boxed and have none of these names.
\<close>

fun get_prop :: "jsval \<Rightarrow> string \<Rightarrow> error + jsval" where
  "get_prop JUndefined k = Inl TypeError"
| "get_prop JNull k = Inl TypeError"
| "get_prop (JObj ps) k = Inr (case map_of ps k of None \<Rightarrow> JUndefined | Some v \<Rightarrow> v)"
| "get_prop (JArr xs) k =
     (if k = ''length'' then Inr (JNum (Finite (of_nat (length xs))))
      else if digits_only k then Inl Unsupported
      else Inr JUndefined)"
| "get_prop (JStr s) k =
     (if k = ''length'' then Inr (JNum (Finite (of_nat (length s))))
      else if digits_only k then Inl Unsupported
      else Inr JUndefined)"
| "get_prop v k = Inr JUndefined"

text \<open>The comparison \<^verbatim>\<open>a > b\<close>, modelled on numbers only.\<close>

fun num_gt :: "jsnum \<Rightarrow> jsnum \<Rightarrow> bool" where
  "num_gt NaN b = False"
| "num_gt a NaN = False"
| "num_gt PosInfinity b = (b \<noteq> PosInfinity)"
| "num_gt a PosInfinity = False"
| "num_gt a NegInfinity = (a \<noteq> NegInfinity)"
| "num_gt NegInfinity b = False"
| "num_gt (Finite x) (Finite y) = (y < x)"

fun js_gt :: "jsval \<Rightarrow> jsval \<Rightarrow> error + bool" where
  "js_gt (JNum a) (JNum b) = Inr (num_gt a b)"
| "js_gt a b = Inl Unsupported"

section \<open>The function of \<^verbatim>\<open>src/App.js\<close>\<close>

text \<open>
  \<^verbatim>\<open>
  export function computeActiveFromEntries(entries, prevId) {
    let nextId = prevId;
    if (!Array.isArray(entries)) return nextId;
    for (let i = 0; i < entries.length; i++) {
      const entry = entries[i];
      if (!entry || !entry.isIntersecting) continue;
      const target = entry.target;
      if (target && typeof target.id === "string" && target.id.length > 0) {
        nextId = target.id;
      }
    }
    return nextId;
  }
  \<close>
  \<open>visit\<close> is the body of the loop for one entry: it returns the value of
  \<^verbatim>\<open>nextId\<close> after the iteration. Every read is made in the order and under the
  guards of the source, \<^verbatim>\<open>||\<close> and \<^verbatim>\<open>&&\<close> evaluating their right operand only when
  the left one does not decide.
\<close>

definition visit :: "jsval \<Rightarrow> jsval \<Rightarrow> error + jsval" where
  "visit entry nextId =
     (if \<not> truthy entry then Inr nextId
      else thenE (get_prop entry ''isIntersecting'') (\<lambda>isIntersecting.
        if \<not> truthy isIntersecting then Inr nextId
        else thenE (get_prop entry ''target'') (\<lambda>target.
          if \<not> truthy target then Inr nextId
          else thenE (get_prop target ''id'') (\<lambda>id1.
            if typeof id1 \<noteq> ''string'' then Inr nextId
            else thenE (get_prop target ''id'') (\<lambda>id2.
              thenE (get_prop id2 ''length'') (\<lambda>len.
                thenE (js_gt len (JNum (Finite 0))) (\<lambda>longer.
                  if longer then get_prop target ''id'' else Inr nextId)))))))"

function loop :: "jsval list \<Rightarrow> nat \<Rightarrow> jsval \<Rightarrow> error + jsval" where
  "loop entries i nextId =
     (if i < length entries then
        (case visit (entries ! i) nextId of
           Inl e \<Rightarrow> Inl e
         | Inr nextId' \<Rightarrow> loop entries (i + 1) nextId')
      else Inr nextId)"
  by pat_completeness auto
termination
  by (relation "measure (\<lambda>(entries, i, nextId). length entries - i)") auto

declare loop.simps [simp del]

definition computeActiveFromEntries :: "jsval \<Rightarrow> jsval \<Rightarrow> error + jsval" where
  "computeActiveFromEntries entries prevId =
     (let nextId = prevId in
      case entries of
        JArr xs \<Rightarrow> loop xs 0 nextId
      | _ \<Rightarrow> Inr nextId)"


section \<open>The function of the second source file\<close>

text \<open>
  The repository holds a second file that exports a function of the same name. It is
  translated on its own, statement by statement, from that file:
  \<^verbatim>\<open>
  export function computeActiveFromEntries(entries, prevId) {
    let nextId = prevId;
    if (!Array.isArray(entries)) return nextId;
    for (let i = 0; i < entries.length; i++) {
      const entry = entries[i];
      if (!entry || !entry.isIntersecting) continue;
      const target = entry.target;
      if (target && typeof target.id === "string" && target.id.length > 0) {
        nextId = target.id;
      }
    }
    return nextId;
  }
  \<close>
\<close>

definition visit_part_000 :: "jsval \<Rightarrow> jsval \<Rightarrow> error + jsval" where
  "visit_part_000 entry nextId =
     (if \<not> truthy entry then Inr nextId
      else thenE (get_prop entry ''isIntersecting'') (\<lambda>isIntersecting.
        if \<not> truthy isIntersecting then Inr nextId
        else thenE (get_prop entry ''target'') (\<lambda>target.
          if \<not> truthy target then Inr nextId
          else thenE (get_prop target ''id'') (\<lambda>id1.
            if typeof id1 \<noteq> ''string'' then Inr nextId
            else thenE (get_prop target ''id'') (\<lambda>id2.
              thenE (get_prop id2 ''length'') (\<lambda>len.
                thenE (js_gt len (JNum (Finite 0))) (\<lambda>longer.
                  if longer then get_prop target ''id'' else Inr nextId)))))))"

function loop_part_000 :: "jsval list \<Rightarrow> nat \<Rightarrow> jsval \<Rightarrow> error + jsval" where
  "loop_part_000 entries i nextId =
     (if i < length entries then
        (case visit_part_000 (entries ! i) nextId of
           Inl e \<Rightarrow> Inl e
         | Inr nextId' \<Rightarrow> loop_part_000 entries (i + 1) nextId')
      else Inr nextId)"
  by pat_completeness auto
termination
  by (relation "measure (\<lambda>(entries, i, nextId). length entries - i)") auto

declare loop_part_000.simps [simp del]

definition computeActiveFromEntries_part_000 :: "jsval \<Rightarrow> jsval \<Rightarrow> error + jsval" where
  "computeActiveFromEntries_part_000 entries prevId =
     (let nextId = prevId in
      case entries of
        JArr xs \<Rightarrow> loop_part_000 xs 0 nextId
      | _ \<Rightarrow> Inr nextId)"

section \<open>The vocabulary of the specification\<close>

text \<open>
  \<open>field v k\<close> is the read \<^verbatim>\<open>v?.k\<close>, which is \<^verbatim>\<open>undefined\<close> where \<^verbatim>\<open>v.k\<close> would throw.
  The specification speaks of an observation's \<^verbatim>\<open>isIntersecting\<close> flag and of its
  target identifier; in the code these are \<^verbatim>\<open>entry.isIntersecting\<close> and
  \<^verbatim>\<open>entry.target.id\<close>. An absent flag or identifier reads as \<open>JUndefined\<close>.
\<close>

definition field :: "jsval \<Rightarrow> string \<Rightarrow> jsval" where
  "field v k = (case get_prop v k of Inl e \<Rightarrow> JUndefined | Inr x \<Rightarrow> x)"

definition isIntersecting_of :: "jsval \<Rightarrow> jsval" where
  "isIntersecting_of entry = field entry ''isIntersecting''"

definition target_id :: "jsval \<Rightarrow> jsval" where
  "target_id entry = field (field entry ''target'') ''id''"

definition nonempty_string :: "jsval \<Rightarrow> bool" where
  "nonempty_string v = (case v of JStr s \<Rightarrow> s \<noteq> [] | _ \<Rightarrow> False)"

text \<open>
  A qualifying entry: it is not null or absent, its \<^verbatim>\<open>isIntersecting\<close> holds, and its
  target identifier is present, a string, and not empty. ``Holds'' is JavaScript
  truthiness, which on a boolean flag is being \<^verbatim>\<open>true\<close>.
\<close>

definition qualifying :: "jsval \<Rightarrow> bool" where
  "qualifying entry =
     (entry \<noteq> JNull \<and> entry \<noteq> JUndefined \<and> truthy (isIntersecting_of entry)
      \<and> nonempty_string (target_id entry))"

text \<open>One step of the reducer as the specification tells it.\<close>

definition advance :: "jsval \<Rightarrow> jsval \<Rightarrow> jsval" where
  "advance entry nextId = (if qualifying entry then target_id entry else nextId)"

text \<open>The entries of a batch; a value that is not an array has none.\<close>

fun elements :: "jsval \<Rightarrow> jsval list" where
  "elements (JArr xs) = xs"
| "elements v = []"

text \<open>
  The shape of the entries in the runtime tests of the source,
  \<^verbatim>\<open>{ isIntersecting: b, target: { id: i } }\<close>.
\<close>

definition observation :: "jsval \<Rightarrow> jsval \<Rightarrow> jsval" where
  "observation b i = JObj [(''isIntersecting'', b), (''target'', JObj [(''id'', i)])]"

section \<open>The function over a store of objects\<close>

text \<open>
  Whether a call changes the objects it is given cannot be said of values that are
  trees. In this second model an object or an array lives in a store, at an address, and
  a value that is not primitive is a reference to it, so that two references may share
  an object. A computation takes the store and returns it with its result: a write to a
  property would show as a changed store. The store holds an object at every address
  (the function never allocates).
\<close>

type_synonym addr = nat

datatype hval =
    HUndefined
  | HNull
  | HBool bool
  | HNum jsnum
  | HBigInt int
  | HStr string
  | HSymbol string
  | HRef addr

datatype hobj = HObject "(string \<times> hval) list" | HArray "hval list"

type_synonym heap = "addr \<Rightarrow> hobj"

type_synonym 'a run = "heap \<Rightarrow> (error + 'a) \<times> heap"

text \<open>Sequencing: an exception ends the run, with the store as it then is.\<close>

definition returnS :: "'a \<Rightarrow> 'a run" where
  "returnS v h = (Inr v, h)"

definition bindS :: "'a run \<Rightarrow> ('a \<Rightarrow> 'b run) \<Rightarrow> 'b run" where
  "bindS m f h = (case m h of (Inl e, h') \<Rightarrow> (Inl e, h') | (Inr v, h') \<Rightarrow> f v h')"

text \<open>\<^verbatim>\<open>ToBoolean\<close>, \<^verbatim>\<open>typeof\<close> and \<^verbatim>\<open>Array.isArray\<close>; a reference is an object.\<close>

fun h_truthy :: "hval \<Rightarrow> bool" where
  "h_truthy HUndefined = False"
| "h_truthy HNull = False"
| "h_truthy (HBool b) = b"
| "h_truthy (HNum n) = (n \<noteq> NaN \<and> n \<noteq> Finite 0)"
| "h_truthy (HBigInt k) = (k \<noteq> 0)"
| "h_truthy (HStr s) = (s \<noteq> [])"
| "h_truthy (HSymbol d) = True"
| "h_truthy (HRef a) = True"

fun h_typeof :: "hval \<Rightarrow> string" where
  "h_typeof HUndefined = ''undefined''"
| "h_typeof HNull = ''object''"
| "h_typeof (HBool b) = ''boolean''"
| "h_typeof (HNum n) = ''number''"
| "h_typeof (HBigInt k) = ''bigint''"
| "h_typeof (HStr s) = ''string''"
| "h_typeof (HSymbol d) = ''symbol''"
| "h_typeof (HRef a) = ''object''"

definition h_isArray :: "hval \<Rightarrow> bool run" where
  "h_isArray v h =
     (Inr (case v of
             HRef a \<Rightarrow> (case h a of HArray xs \<Rightarrow> True | HObject ps \<Rightarrow> False)
           | _ \<Rightarrow> False), h)"

text \<open>
  The property read \<^verbatim>\<open>v.k\<close>, the read \<^verbatim>\<open>entries.length\<close> of the loop test, the
  indexed read \<^verbatim>\<open>entries[i]\<close> (outside the array it is \<^verbatim>\<open>undefined\<close>) and the
  comparison \<^verbatim>\<open>a > b\<close>. All of them read the store and return it. The loop
  reads \<^verbatim>\<open>entries.length\<close> and \<^verbatim>\<open>entries[i]\<close> of an array only, behind the test
  \<^verbatim>\<open>Array.isArray\<close>; on another value the two reads are not modelled. Functions
  are not among the values, so every reference has \<^verbatim>\<open>typeof\<close> \<^verbatim>\<open>"object"\<close>.
\<close>

definition own_length :: "nat \<Rightarrow> string \<Rightarrow> error + hval" where
  "own_length n k =
     (if k = ''length'' then Inr (HNum (Finite (of_nat n)))
      else if digits_only k then Inl Unsupported
      else Inr HUndefined)"

definition h_get_prop :: "hval \<Rightarrow> string \<Rightarrow> hval run" where
  "h_get_prop v k h =
     (case v of
        HUndefined \<Rightarrow> Inl TypeError
      | HNull \<Rightarrow> Inl TypeError
      | HRef a \<Rightarrow>
          (case h a of
             HObject ps \<Rightarrow> Inr (case map_of ps k of None \<Rightarrow> HUndefined | Some x \<Rightarrow> x)
           | HArray xs \<Rightarrow> own_length (length xs) k)
      | HStr s \<Rightarrow> own_length (length s) k
      | _ \<Rightarrow> Inr HUndefined, h)"

definition h_length :: "hval \<Rightarrow> nat run" where
  "h_length v h =
     (case v of
        HRef a \<Rightarrow> (case h a of HArray xs \<Rightarrow> Inr (length xs) | HObject ps \<Rightarrow> Inl Unsupported)
      | _ \<Rightarrow> Inl Unsupported, h)"

definition h_index :: "hval \<Rightarrow> nat \<Rightarrow> hval run" where
  "h_index v i h =
     (case v of
        HRef a \<Rightarrow>
          (case h a of
             HArray xs \<Rightarrow> Inr (if i < length xs then xs ! i else HUndefined)
           | HObject ps \<Rightarrow> Inl Unsupported)
      | _ \<Rightarrow> Inl Unsupported, h)"

definition h_gt :: "hval \<Rightarrow> hval \<Rightarrow> bool run" where
  "h_gt a b h =
     (case (a, b) of (HNum x, HNum y) \<Rightarrow> Inr (num_gt x y) | _ \<Rightarrow> Inl Unsupported, h)"

text \<open>
  The body of the loop, the loop and the function, statement by statement as in
  \<open>visit\<close>, \<open>loop\<close> and \<open>computeActiveFromEntries\<close>. The loop reads
  \<^verbatim>\<open>entries.length\<close> and \<^verbatim>\<open>entries[i]\<close> from the store at every iteration, as the
  source does; it ends because the body leaves the store, and so the length, as it was.
\<close>

definition visit_st :: "hval \<Rightarrow> hval \<Rightarrow> hval run" where
  "visit_st entry nextId =
     (if \<not> h_truthy entry then returnS nextId
      else bindS (h_get_prop entry ''isIntersecting'') (\<lambda>isIntersecting.
        if \<not> h_truthy isIntersecting then returnS nextId
        else bindS (h_get_prop entry ''target'') (\<lambda>target.
          if \<not> h_truthy target then returnS nextId
          else bindS (h_get_prop target ''id'') (\<lambda>id1.
            if h_typeof id1 \<noteq> ''string'' then returnS nextId
            else bindS (h_get_prop target ''id'') (\<lambda>id2.
              bindS (h_get_prop id2 ''length'') (\<lambda>len.
                bindS (h_gt len (HNum (Finite 0))) (\<lambda>longer.
                  if longer then h_get_prop target ''id'' else returnS nextId)))))))"

definition array_size :: "heap \<Rightarrow> hval \<Rightarrow> nat" where
  "array_size h v =
     (case v of HRef a \<Rightarrow> (case h a of HArray xs \<Rightarrow> length xs | HObject ps \<Rightarrow> 0) | _ \<Rightarrow> 0)"

function loop_st :: "hval \<Rightarrow> nat \<Rightarrow> hval \<Rightarrow> hval run" where
  "loop_st entries i nextId h =
     (case h_length entries h of
        (Inl e, h1) \<Rightarrow> (Inl e, h1)
      | (Inr n, h1) \<Rightarrow>
          if i < n then
            (case h_index entries i h1 of
               (Inl e, h2) \<Rightarrow> (Inl e, h2)
             | (Inr entry, h2) \<Rightarrow>
                 (case visit_st entry nextId h2 of
                    (Inl e, h3) \<Rightarrow> (Inl e, h3)
                  | (Inr nextId', h3) \<Rightarrow> loop_st entries (i + 1) nextId' h3))
          else (Inr nextId, h1))"
  by pat_completeness auto
termination
proof (relation "measure (\<lambda>(entries, i, nextId, h). array_size h entries - i)")
  show "wf (measure (\<lambda>(entries, i, nextId, h). array_size h entries - i))"
    by simp
next
  fix entries :: hval and i :: nat and nextId :: hval and h :: heap
    and x :: "error + nat" and h1 :: heap and n :: nat
    and y :: "error + hval" and h2 :: heap and entry :: hval
    and z :: "error + hval" and h3 :: heap and nextId' :: hval
  assume len: "(x, h1) = h_length entries h" "x = Inr n" and lt: "i < n"
    and idx: "(y, h2) = h_index entries i h1" "y = Inr entry"
    and vis: "(z, h3) = visit_st entry nextId h2" "z = Inr nextId'"
  from len have h1: "h1 = h" and n: "n = array_size h entries"
    by (auto simp: h_length_def array_size_def split: hval.splits hobj.splits)
  from idx have h2: "h2 = h1"
    by (simp add: h_index_def)
  have "snd (visit_st entry nextId h2) = h2"
    by (simp add: visit_st_def bindS_def returnS_def h_get_prop_def h_gt_def
        split: sum.splits prod.splits)
  with vis have h3: "h3 = h2"
    by (metis snd_conv)
  from lt show "((entries, i + 1, nextId', h3), (entries, i, nextId, h))
      \<in> measure (\<lambda>(entries, i, nextId, h). array_size h entries - i)"
    by (simp add: h1 h2 h3 n)
qed

definition computeActiveFromEntries_st :: "hval \<Rightarrow> hval \<Rightarrow> hval run" where
  "computeActiveFromEntries_st entries prevId =
     (let nextId = prevId in
      bindS (h_isArray entries) (\<lambda>isArr.
        if \<not> isArr then returnS nextId
        else loop_st entries 0 nextId))"

declare loop_st.simps [simp del]

text \<open>
  What a value of the store stands for, as a tree: references are followed to depth
  \<open>n\<close>, and an object deeper than that is shown without its properties.
\<close>

fun contents :: "nat \<Rightarrow> heap \<Rightarrow> hval \<Rightarrow> jsval" where
  "contents n h HUndefined = JUndefined"
| "contents n h HNull = JNull"
| "contents n h (HBool b) = JBool b"
| "contents n h (HNum x) = JNum x"
| "contents n h (HBigInt k) = JBigInt k"
| "contents n h (HStr s) = JStr s"
| "contents n h (HSymbol d) = JSymbol d"
| "contents 0 h (HRef a) = JObj []"
| "contents (Suc n) h (HRef a) =
     (case h a of
        HObject ps \<Rightarrow> JObj (map (\<lambda>(k, v). (k, contents n h v)) ps)
      | HArray xs \<Rightarrow> JArr (map (contents n h) xs))"

text \<open>
  Two stores for the examples: the batch \<^verbatim>\<open>[{ isIntersecting: true, target: { id:
  "features" } }, null]\<close>, held at different addresses.
\<close>

definition example_store :: heap where
  "example_store a =
     (if a = 0 then HArray [HRef 1, HNull]
      else if a = 1 then HObject [(''isIntersecting'', HBool True), (''target'', HRef 2)]
      else HObject [(''id'', HStr ''features'')])"

definition example_store_moved :: heap where
  "example_store_moved a =
     (if a = 7 then HArray [HRef 3, HNull]
      else if a = 3 then HObject [(''isIntersecting'', HBool True), (''target'', HRef 9)]
      else HObject [(''id'', HStr ''features'')])"

section \<open>The loop as a fold\<close>

lemma digits_only_names [simp]:
  "\<not> digits_only ''isIntersecting''" "\<not> digits_only ''target''" "\<not> digits_only ''id''"
  by (simp_all add: digits_only_def)

lemma get_prop_truthy: "truthy v \<Longrightarrow> \<not> digits_only k \<Longrightarrow> \<exists>x. get_prop v k = Inr x"
  by (cases v) auto

lemma visit_advance: "visit entry nextId = Inr (advance entry nextId)"
proof (cases "truthy entry")
  case False
  then show ?thesis
    by (cases entry)
      (auto simp: visit_def advance_def qualifying_def isIntersecting_of_def field_def)
next
  case True
  then obtain b where b: "get_prop entry ''isIntersecting'' = Inr b"
    using get_prop_truthy [of entry "''isIntersecting''"] by auto
  from True obtain t where t: "get_prop entry ''target'' = Inr t"
    using get_prop_truthy [of entry "''target''"] by auto
  from True have nn: "entry \<noteq> JNull" "entry \<noteq> JUndefined" by auto
  show ?thesis
  proof (cases "truthy t")
    case False
    then have "field t ''id'' = JUndefined"
      by (cases t) (auto simp: field_def)
    with True b t False nn show ?thesis
      by (simp add: visit_def advance_def qualifying_def isIntersecting_of_def target_id_def
          field_def thenE_def nonempty_string_def)
  next
    case tt: True
    then obtain d where d: "get_prop t ''id'' = Inr d"
      using get_prop_truthy [of t "''id''"] by auto
    with True b t tt nn show ?thesis
      by (cases d) (auto simp: visit_def advance_def qualifying_def isIntersecting_of_def
          target_id_def field_def thenE_def nonempty_string_def)
  qed
qed

lemma loop_fold: "loop entries i nextId = Inr (fold advance (drop i entries) nextId)"
proof (induction entries i nextId rule: loop.induct)
  case (1 entries i nextId)
  show ?case
  proof (cases "i < length entries")
    case True
    then have "drop i entries = entries ! i # drop (Suc i) entries"
      by (simp add: Cons_nth_drop_Suc)
    with True "1.IH" [OF True visit_advance] show ?thesis
      by (subst loop.simps) (simp add: visit_advance)
  next
    case False
    then show ?thesis by (subst loop.simps) simp
  qed
qed

lemma computeActive_fold:
  "computeActiveFromEntries entries prevId = Inr (fold advance (elements entries) prevId)"
  by (cases entries) (simp_all add: computeActiveFromEntries_def loop_fold)

lemma fold_advance_none: "\<forall>e\<in>set xs. \<not> qualifying e \<Longrightarrow> fold advance xs n = n"
  by (induction xs arbitrary: n) (auto simp: advance_def)

lemma fold_advance_last:
  "\<exists>e\<in>set xs. qualifying e \<Longrightarrow> fold advance xs n = target_id (last (filter qualifying xs))"
proof (induction xs arbitrary: n rule: rev_induct)
  case Nil
  then show ?case by simp
next
  case (snoc x xs)
  show ?case
  proof (cases "qualifying x")
    case True
    then show ?thesis by (simp add: advance_def)
  next
    case False
    with snoc.prems have "\<exists>e\<in>set xs. qualifying e" by auto
    from snoc.IH [OF this] False show ?thesis by (simp add: advance_def)
  qed
qed

lemma qualifying_observation [simp]:
  "qualifying (observation b i) = (truthy b \<and> nonempty_string i)"
  by (simp add: qualifying_def observation_def isIntersecting_of_def target_id_def field_def)

lemma target_id_observation [simp]: "target_id (observation b i) = i"
  by (simp add: observation_def target_id_def field_def)

lemma nonempty_string_simps [simp]:
  "nonempty_string (JStr s) = (s \<noteq> [])"
  "\<not> nonempty_string JUndefined" "\<not> nonempty_string JNull" "\<not> nonempty_string (JBool b)"
  "\<not> nonempty_string (JNum n)" "\<not> nonempty_string (JBigInt k)" "\<not> nonempty_string (JSymbol d)"
  "\<not> nonempty_string (JObj ps)" "\<not> nonempty_string (JArr xs)"
  by (simp_all add: nonempty_string_def)

lemma qualifying_falsy: "\<not> truthy e \<Longrightarrow> \<not> qualifying e"
  by (cases e) (auto simp: qualifying_def isIntersecting_of_def field_def)

text \<open>
  On an entry whose flag is a boolean, as the specification's data model has it,
  qualifying is the flag being \<^verbatim>\<open>true\<close>.
\<close>

lemma qualifying_boolean_flag:
  "isIntersecting_of e = JBool b \<Longrightarrow>
   qualifying e = (e \<noteq> JNull \<and> e \<noteq> JUndefined \<and> b \<and> nonempty_string (target_id e))"
  by (simp add: qualifying_def)

text \<open>The entries that do not qualify, case by case.\<close>

lemma not_qualifying_cases:
  "(\<not> qualifying e) =
   (e = JNull \<or> e = JUndefined \<or> \<not> truthy (isIntersecting_of e)
    \<or> typeof (target_id e) \<noteq> ''string'' \<or> target_id e = JStr '''')"
  by (cases "target_id e") (auto simp: qualifying_def)

lemma fold_advance_member:
  "fold advance xs n = n \<or> (\<exists>e\<in>set xs. qualifying e \<and> fold advance xs n = target_id e)"
proof (cases "\<exists>e\<in>set xs. qualifying e")
  case True
  then have "filter qualifying xs \<noteq> []" by (simp add: filter_empty_conv)
  then have "last (filter qualifying xs) \<in> set (filter qualifying xs)" by (rule last_in_set)
  with fold_advance_last [OF True, of n] show ?thesis by auto
next
  case False
  then show ?thesis by (simp add: fold_advance_none)
qed

section \<open>The two copies\<close>

lemma visit_part_000_eq: "visit_part_000 entry nextId = visit entry nextId"
  by (simp add: visit_part_000_def visit_def)

lemma loop_part_000_eq: "loop_part_000 entries i nextId = loop entries i nextId"
proof (induction entries i nextId rule: loop.induct)
  case (1 entries i nextId)
  show ?case
  proof (cases "i < length entries")
    case True
    with "1.IH" show ?thesis
      by (subst loop_part_000.simps, subst loop.simps)
        (simp add: visit_part_000_eq split: sum.splits)
  next
    case False
    then show ?thesis by (subst loop_part_000.simps, subst loop.simps) simp
  qed
qed

section \<open>The store model and the value model agree\<close>

lemma truthy_contents [simp]: "truthy (contents n h v) = h_truthy v"
  by (cases v; cases n) (auto split: hobj.splits)

lemma typeof_contents [simp]: "typeof (contents n h v) = h_typeof v"
  by (cases v; cases n) (auto split: hobj.splits)

lemma h_get_prop_heap [simp]: "snd (h_get_prop v k h) = h"
  by (simp add: h_get_prop_def)

lemma map_of_contents:
  "map_of (map (\<lambda>(k, v). (k, f v)) ps) k = map_option f (map_of ps k)"
  by (induction ps) auto

lemma get_prop_contents:
  "get_prop (contents (Suc n) h v) k = map_sum id (contents n h) (fst (h_get_prop v k h))"
  by (cases v)
    (auto simp: h_get_prop_def own_length_def map_of_contents split: hobj.splits option.splits)

lemma visit_st_heap [simp]: "snd (visit_st entry nextId h) = h"
  by (simp add: visit_st_def bindS_def returnS_def h_get_prop_def h_gt_def
      split: sum.splits prod.splits)

lemma visit_contents:
  "visit (contents (Suc (Suc n)) h entry) (contents n h nextId)
   = map_sum id (contents n h) (fst (visit_st entry nextId h))"
proof -
  have gp: "\<And>v k. \<exists>r. h_get_prop v k h = (r, h)"
    by (simp add: h_get_prop_def)
  show ?thesis
  proof (cases "h_truthy entry")
    case False
    then show ?thesis by (simp add: visit_def visit_st_def returnS_def)
  next
    case True
    obtain r1 where r1: "h_get_prop entry ''isIntersecting'' h = (r1, h)" using gp by blast
    obtain r2 where r2: "h_get_prop entry ''target'' h = (r2, h)" using gp by blast
    show ?thesis
    proof (cases r1)
      case (Inl e)
      with True r1 show ?thesis
        by (simp add: visit_def visit_st_def bindS_def thenE_def get_prop_contents)
    next
      case b: (Inr b)
      show ?thesis
      proof (cases "h_truthy b")
        case False
        with True r1 b show ?thesis
          by (simp add: visit_def visit_st_def bindS_def thenE_def returnS_def get_prop_contents)
      next
        case bt: True
        show ?thesis
        proof (cases r2)
          case (Inl e)
          with True r1 b bt r2 show ?thesis
            by (simp add: visit_def visit_st_def bindS_def thenE_def get_prop_contents)
        next
          case t: (Inr t)
          obtain r3 where r3: "h_get_prop t ''id'' h = (r3, h)" using gp by blast
          show ?thesis
          proof (cases "h_truthy t")
            case False
            with True r1 b bt r2 t show ?thesis
              by (simp add: visit_def visit_st_def bindS_def thenE_def returnS_def
                  get_prop_contents)
          next
            case tt: True
            show ?thesis
            proof (cases r3)
              case (Inl e)
              with True r1 b bt r2 t tt r3 show ?thesis
                by (simp add: visit_def visit_st_def bindS_def thenE_def get_prop_contents)
            next
              case d: (Inr d)
              show ?thesis
              proof (cases d)
                case (HStr s)
                with True r1 b bt r2 t tt r3 d show ?thesis
                  by (simp add: visit_def visit_st_def bindS_def thenE_def returnS_def
                      get_prop_contents h_get_prop_def [of "HStr s"] own_length_def h_gt_def)
              qed (use True r1 b bt r2 t tt r3 d in
                  \<open>simp_all add: visit_def visit_st_def bindS_def thenE_def returnS_def
                      get_prop_contents\<close>)
            qed
          qed
        qed
      qed
    qed
  qed
qed


lemma visit_st_returns:
  "\<exists>r. visit_st entry nextId h = (Inr r, h)
       \<and> visit (contents (Suc (Suc n)) h entry) (contents n h nextId) = Inr (contents n h r)"
proof -
  obtain x where x: "visit_st entry nextId h = (x, h)"
    using visit_st_heap [of entry nextId h] by (cases "visit_st entry nextId h") simp
  with visit_contents [of n h entry nextId] visit_advance show ?thesis
    by (cases x) auto
qed

lemma loop_st_contents:
  assumes arr: "h a = HArray xs"
  shows "\<exists>r. loop_st (HRef a) i nextId h = (Inr r, h)
       \<and> loop (map (contents (Suc (Suc n)) h) xs) i (contents n h nextId)
           = Inr (contents n h r)"
proof (induction "length xs - i" arbitrary: i nextId)
  case 0
  then have "\<not> i < length xs" by simp
  with arr show ?case
    by (subst loop_st.simps, subst loop.simps) (simp add: h_length_def)
next
  case (Suc m)
  then have lt: "i < length xs" and m: "m = length xs - (i + 1)" by simp_all
  obtain r where r: "visit_st (xs ! i) nextId h = (Inr r, h)"
    and v: "visit (contents (Suc (Suc n)) h (xs ! i)) (contents n h nextId)
            = Inr (contents n h r)"
    using visit_st_returns by blast
  from Suc.hyps(1) [OF m, of r] obtain r' where
    r': "loop_st (HRef a) (i + 1) r h = (Inr r', h)"
    and l: "loop (map (contents (Suc (Suc n)) h) xs) (i + 1) (contents n h r)
            = Inr (contents n h r')"
    by blast
  from arr lt r r' have "loop_st (HRef a) i nextId h = (Inr r', h)"
    by (subst loop_st.simps) (simp add: h_length_def h_index_def)
  moreover from lt v l
  have "loop (map (contents (Suc (Suc n)) h) xs) i (contents n h nextId)
        = Inr (contents n h r')"
    by (subst loop.simps) simp
  ultimately show ?case by blast
qed

lemma computeActiveFromEntries_st_contents:
  "snd (computeActiveFromEntries_st entries prevId h) = h
   \<and> map_sum id (contents n h) (fst (computeActiveFromEntries_st entries prevId h))
       = computeActiveFromEntries (contents (n + 3) h entries) (contents n h prevId)"
proof (cases entries)
  case (HRef a)
  show ?thesis
  proof (cases "h a")
    case (HObject ps)
    with HRef show ?thesis
      by (simp add: computeActiveFromEntries_st_def computeActiveFromEntries_def
          bindS_def returnS_def h_isArray_def numeral_3_eq_3)
  next
    case (HArray xs)
    from loop_st_contents [of h a xs 0 prevId n] HRef HArray show ?thesis
      by (auto simp: computeActiveFromEntries_st_def computeActiveFromEntries_def
          bindS_def returnS_def h_isArray_def numeral_3_eq_3)
  qed
qed (simp_all add: computeActiveFromEntries_st_def computeActiveFromEntries_def
    bindS_def returnS_def h_isArray_def)

lemma contents_example:
  "contents 3 example_store (HRef 0)
   = JArr [observation (JBool True) (JStr ''features''), JNull]"
  "contents 3 example_store_moved (HRef 7)
   = JArr [observation (JBool True) (JStr ''features''), JNull]"
  by (simp_all add: example_store_def example_store_moved_def observation_def eval_nat_numeral)

section \<open>The claims\<close>

text \<open>
  C1. For every previous identifier and every array of entries with at least one
  qualifying entry, \<open>computeActiveFromEntries\<close> returns the target identifier of the
  last qualifying entry in iteration order: a later qualifying entry overrides the
  earlier ones.
\<close>

theorem last_qualifying_entry_wins:
  assumes "\<exists>e\<in>set entries. qualifying e"
  shows "computeActiveFromEntries (JArr entries) previousId
         = Inr (target_id (last (filter qualifying entries)))"
  using assms by (simp add: computeActive_fold fold_advance_last)

theorem last_qualifying_entry_wins_witness:
  "(\<exists>e\<in>set [observation (JBool True) (JStr ''home''),
              observation (JBool True) (JStr ''portfolio'')]. qualifying e)
   \<and> computeActiveFromEntries
        (JArr [observation (JBool True) (JStr ''home''),
               observation (JBool True) (JStr ''portfolio'')]) (JStr ''home'')
      = Inr (JStr ''portfolio'')"
  using last_qualifying_entry_wins
    [of "[observation (JBool True) (JStr ''home''),
          observation (JBool True) (JStr ''portfolio'')]" "JStr ''home''"]
  by simp

text \<open>
  C2. \<open>computeActiveFromEntries\<close> returns the previous identifier unchanged when the
  entries argument is not an array, and when it is an array in which no entry
  qualifies; so it does on the empty array, and on \<^verbatim>\<open>null\<close> with \<^verbatim>\<open>"home"\<close>.
\<close>

theorem unchanged_without_qualifying_entry:
  "(\<not> isArray entries \<longrightarrow> computeActiveFromEntries entries previousId = Inr previousId)
   \<and> ((\<forall>e\<in>set xs. \<not> qualifying e)
        \<longrightarrow> computeActiveFromEntries (JArr xs) previousId = Inr previousId)
   \<and> computeActiveFromEntries (JArr []) previousId = Inr previousId
   \<and> computeActiveFromEntries JNull (JStr ''home'') = Inr (JStr ''home'')"
  by (cases entries) (simp_all add: computeActive_fold fold_advance_none)

theorem unchanged_without_qualifying_entry_witness:
  "\<not> isArray JUndefined
   \<and> computeActiveFromEntries JUndefined (JStr ''home'') = Inr (JStr ''home'')
   \<and> \<not> qualifying JNull \<and> \<not> qualifying JUndefined
   \<and> \<not> qualifying (observation (JBool False) (JStr ''resume''))
   \<and> \<not> qualifying (observation (JBool True) (JStr ''''))
   \<and> computeActiveFromEntries
        (JArr [JNull, JUndefined, observation (JBool False) (JStr ''resume''),
               observation (JBool True) (JStr '''')]) (JStr ''home'')
      = Inr (JStr ''home'')"
  using unchanged_without_qualifying_entry
    [of JUndefined "JStr ''home''"
        "[JNull, JUndefined, observation (JBool False) (JStr ''resume''),
          observation (JBool True) (JStr '''')]"]
  by (simp add: qualifying_def [of JNull] qualifying_def [of JUndefined])

text \<open>
  C3. An entry that does not qualify (it is null or absent, or its \<^verbatim>\<open>isIntersecting\<close>
  does not hold, or its target identifier is absent, not a string, or the empty
  string: see \<open>not_qualifying_cases\<close>) never affects the result: with it or without it,
  at any position of the batch, \<open>computeActiveFromEntries\<close> returns the same.
\<close>

theorem non_qualifying_entry_irrelevant:
  assumes "\<not> qualifying e"
  shows "computeActiveFromEntries (JArr (xs @ e # ys)) previousId
         = computeActiveFromEntries (JArr (xs @ ys)) previousId"
  using assms by (simp add: computeActive_fold advance_def)

theorem non_qualifying_entry_irrelevant_witness:
  "\<not> qualifying (observation (JBool True) (JNum (Finite 123)))
   \<and> computeActiveFromEntries
        (JArr ([observation (JBool True) (JStr ''features'')]
               @ observation (JBool True) (JNum (Finite 123)) # [JNull])) (JStr ''home'')
      = computeActiveFromEntries
        (JArr ([observation (JBool True) (JStr ''features'')] @ [JNull])) (JStr ''home'')"
  using non_qualifying_entry_irrelevant
    [of "observation (JBool True) (JNum (Finite 123))"
        "[observation (JBool True) (JStr ''features'')]" "[JNull]" "JStr ''home''"]
  by simp

text \<open>
  C4. Whatever the previous identifier and the batch, \<open>computeActiveFromEntries\<close>
  returns either the previous identifier or the target identifier of a qualifying
  entry of the batch; hence a previous identifier that is a non-empty string gives a
  result that is a non-empty string.
\<close>

theorem result_is_previous_or_qualifying_id:
  "\<exists>r. computeActiveFromEntries entries previousId = Inr r
       \<and> (r = previousId \<or> (\<exists>e\<in>set (elements entries). qualifying e \<and> r = target_id e))
       \<and> (nonempty_string previousId \<longrightarrow> nonempty_string r)"
  using fold_advance_member [of "elements entries" previousId]
  by (auto simp: computeActive_fold qualifying_def)

theorem result_is_previous_or_qualifying_id_witness:
  "nonempty_string (JStr ''home'')
   \<and> (\<exists>r. computeActiveFromEntries
            (JArr [observation (JBool True) (JStr ''features''),
                   observation (JBool True) (JNum (Finite 123))]) (JStr ''home'') = Inr r
          \<and> (r = JStr ''home'' \<or> r = JStr ''features'')
          \<and> nonempty_string r)"
  using result_is_previous_or_qualifying_id
    [of "JArr [observation (JBool True) (JStr ''features''),
               observation (JBool True) (JNum (Finite 123))]" "JStr ''home''"]
  by auto

text \<open>
  C5. Order sensitivity: of two qualifying entries \<open>a\<close> and \<open>b\<close> with distinct target
  identifiers, the batch \<open>[a, b]\<close> gives the identifier of \<open>b\<close> and the batch \<open>[b, a]\<close>
  that of \<open>a\<close>, so the two orders give different results.
\<close>

theorem order_sensitive:
  assumes "qualifying a" and "qualifying b" and "target_id a \<noteq> target_id b"
  shows "computeActiveFromEntries (JArr [a, b]) previousId = Inr (target_id b)
         \<and> computeActiveFromEntries (JArr [b, a]) previousId = Inr (target_id a)
         \<and> computeActiveFromEntries (JArr [a, b]) previousId
             \<noteq> computeActiveFromEntries (JArr [b, a]) previousId"
  using assms by (simp add: computeActive_fold advance_def)

theorem order_sensitive_witness:
  "qualifying (observation (JBool True) (JStr ''home''))
   \<and> qualifying (observation (JBool True) (JStr ''portfolio''))
   \<and> target_id (observation (JBool True) (JStr ''home''))
       \<noteq> target_id (observation (JBool True) (JStr ''portfolio''))
   \<and> computeActiveFromEntries
        (JArr [observation (JBool True) (JStr ''home''),
               observation (JBool True) (JStr ''portfolio'')]) (JStr ''resume'')
       = Inr (JStr ''portfolio'')
   \<and> computeActiveFromEntries
        (JArr [observation (JBool True) (JStr ''portfolio''),
               observation (JBool True) (JStr ''home'')]) (JStr ''resume'')
       = Inr (JStr ''home'')"
  using order_sensitive
    [of "observation (JBool True) (JStr ''home'')"
        "observation (JBool True) (JStr ''portfolio'')" "JStr ''resume''"]
  by simp

text \<open>
  C6. Transitions are idempotent: the call returns a result, and the same batch
  applied to that result returns it again.
\<close>

theorem transitions_idempotent:
  "\<exists>r. computeActiveFromEntries entries previousId = Inr r
       \<and> computeActiveFromEntries entries r = Inr r"
proof (cases "\<exists>e\<in>set (elements entries). qualifying e")
  case True
  then show ?thesis by (simp add: computeActive_fold fold_advance_last)
next
  case False
  then show ?thesis by (simp add: computeActive_fold fold_advance_none)
qed

theorem transitions_idempotent_witness:
  "\<exists>r. computeActiveFromEntries
         (JArr [observation (JBool True) (JStr ''features'')]) (JStr ''home'') = Inr r
       \<and> computeActiveFromEntries
         (JArr [observation (JBool True) (JStr ''features'')]) r = Inr r"
  using transitions_idempotent
    [of "JArr [observation (JBool True) (JStr ''features'')]" "JStr ''home''"]
  by simp

text \<open>
  C7. \<open>computeActiveFromEntries\<close> is a pure, deterministic function. A run returns the
  store as it found it: it mutates neither its arguments nor anything else, and the store
  is all the state there is. Its result is the value that the function on trees computes
  from the contents of its arguments; so two calls whose arguments have equal contents
  return results of equal contents, in whatever store and at whatever addresses the
  arguments are held.
\<close>

theorem pure_function:
  "snd (computeActiveFromEntries_st entries prevId h) = h
   \<and> map_sum id (contents n h) (fst (computeActiveFromEntries_st entries prevId h))
       = computeActiveFromEntries (contents (n + 3) h entries) (contents n h prevId)
   \<and> (contents (n + 3) h entries = contents (n + 3) h' entries'
        \<and> contents n h prevId = contents n h' prevId'
      \<longrightarrow> map_sum id (contents n h) (fst (computeActiveFromEntries_st entries prevId h))
          = map_sum id (contents n h') (fst (computeActiveFromEntries_st entries' prevId' h')))"
  using computeActiveFromEntries_st_contents [of entries prevId h n]
    computeActiveFromEntries_st_contents [of entries' prevId' h' n]
  by simp

theorem pure_function_witness:
  "snd (computeActiveFromEntries_st (HRef 0) (HStr ''home'') example_store) = example_store
   \<and> contents 3 example_store (HRef 0) = contents 3 example_store_moved (HRef 7)
   \<and> contents 0 example_store (HStr ''home'') = contents 0 example_store_moved (HStr ''home'')
   \<and> map_sum id (contents 0 example_store)
        (fst (computeActiveFromEntries_st (HRef 0) (HStr ''home'') example_store))
      = Inr (JStr ''features'')
   \<and> map_sum id (contents 0 example_store_moved)
        (fst (computeActiveFromEntries_st (HRef 7) (HStr ''home'') example_store_moved))
      = Inr (JStr ''features'')"
  using pure_function [of "HRef 0" "HStr ''home''" example_store 0 example_store_moved
      "HRef 7" "HStr ''home''"]
  by (auto simp: contents_example computeActive_fold advance_def qualifying_def [of JNull])

text \<open>
  C8. Totality: on every pair of values, malformed ones included,
  \<open>computeActiveFromEntries\<close> returns a result; no read of the function throws and
  the loop ends (\<open>loop\<close> is a total function).
\<close>

theorem never_throws:
  "\<exists>r. computeActiveFromEntries entries previousId = Inr r"
  by (simp add: computeActive_fold)

theorem never_throws_witness:
  "\<exists>r. computeActiveFromEntries
         (JArr [JNull, JNum NaN, JObj [(''isIntersecting'', JBool True)],
                observation (JBool True) JNull]) JUndefined = Inr r"
  using never_throws
    [of "JArr [JNull, JNum NaN, JObj [(''isIntersecting'', JBool True)],
               observation (JBool True) JNull]" JUndefined]
  by simp

text \<open>
  C9. The checks of an entry are truthiness tests. An entry that is truthy, whose
  \<^verbatim>\<open>isIntersecting\<close> is any truthy value (a boolean or not) and whose target identifier
  is a non-empty string updates the result; an entry that is falsy, or whose
  \<^verbatim>\<open>isIntersecting\<close> is falsy or absent, is skipped exactly as a null entry is.
\<close>

theorem truthiness_checks:
  "(truthy e \<and> truthy (isIntersecting_of e) \<and> target_id e = JStr s \<and> s \<noteq> []
      \<longrightarrow> computeActiveFromEntries (JArr (xs @ [e])) previousId = Inr (JStr s))
   \<and> (\<not> truthy e \<or> \<not> truthy (isIntersecting_of e)
      \<longrightarrow> computeActiveFromEntries (JArr (xs @ e # ys)) previousId
          = computeActiveFromEntries (JArr (xs @ JNull # ys)) previousId)"
  using qualifying_falsy [of e]
  by (auto simp: computeActive_fold advance_def qualifying_def)

theorem truthiness_checks_witness:
  "truthy (observation (JNum (Finite 1)) (JStr ''about''))
   \<and> truthy (isIntersecting_of (observation (JNum (Finite 1)) (JStr ''about'')))
   \<and> target_id (observation (JNum (Finite 1)) (JStr ''about'')) = JStr ''about''
   \<and> ''about'' \<noteq> []
   \<and> computeActiveFromEntries
        (JArr ([] @ [observation (JNum (Finite 1)) (JStr ''about'')])) (JStr ''home'')
      = Inr (JStr ''about'')
   \<and> \<not> truthy (JNum (Finite 0))
   \<and> computeActiveFromEntries
        (JArr ([] @ JNum (Finite 0) # [observation (JStr ''yes'') (JStr ''about'')]))
        (JStr ''home'')
      = computeActiveFromEntries
        (JArr ([] @ JNull # [observation (JStr ''yes'') (JStr ''about'')])) (JStr ''home'')"
  using truthiness_checks
    [of "observation (JNum (Finite 1)) (JStr ''about'')" "''about''" "[]" "JStr ''home''"]
    truthiness_checks
    [of "JNum (Finite 0)" "''x''" "[]" "JStr ''home''"
        "[observation (JStr ''yes'') (JStr ''about'')]"]
  by (simp add: observation_def isIntersecting_of_def target_id_def field_def)

text \<open>
  C10. The two copies of \<open>computeActiveFromEntries\<close> in the repository are
  extensionally equal: on every pair of arguments they return the same result.
\<close>

theorem copies_agree:
  "computeActiveFromEntries_part_000 entries prevId = computeActiveFromEntries entries prevId"
  by (simp add: computeActiveFromEntries_part_000_def computeActiveFromEntries_def
      loop_part_000_eq split: jsval.splits)

theorem copies_agree_witness:
  "computeActiveFromEntries_part_000
     (JArr [observation (JBool True) (JStr ''features'')]) (JStr ''home'')
   = computeActiveFromEntries
     (JArr [observation (JBool True) (JStr ''features'')]) (JStr ''home'')"
  using copies_agree [of "JArr [observation (JBool True) (JStr ''features'')]" "JStr ''home''"]
  by simp

end
